theory Spec2Isabelle
  imports Complex_Main "HOL-Library.Sublist"
begin

section \<open>Python strings\<close>

text \<open>
  A Python \<open>str\<close> is a sequence of Unicode code points and \<open>len\<close> counts code points, so a
  string is modelled as the list of its code points. The ellipsis marker of the source is
  the single code point U+2026 and the no-break space is U+00A0.
\<close>

type_synonym pystr = "nat list"

abbreviation str :: "string \<Rightarrow> pystr" where
  "str s \<equiv> map of_char s"

definition ELLIPSIS :: pystr where
  "ELLIPSIS = [8230]"

text \<open>The code points that \<open>str.strip\<close> and \<open>str.rstrip\<close> remove (\<open>str.isspace\<close>).\<close>

definition is_space :: "nat \<Rightarrow> bool" where
  "is_space c \<longleftrightarrow>
     (9 \<le> c \<and> c \<le> 13) \<or> (28 \<le> c \<and> c \<le> 32) \<or> c = 133 \<or> c = 160 \<or> c = 5760 \<or>
     (8192 \<le> c \<and> c \<le> 8202) \<or> c = 8232 \<or> c = 8233 \<or> c = 8239 \<or> c = 8287 \<or> c = 12288"

definition lstrip :: "pystr \<Rightarrow> pystr" where
  "lstrip s = dropWhile is_space s"

definition rstrip :: "pystr \<Rightarrow> pystr" where
  "rstrip s = rev (dropWhile is_space (rev s))"

definition strip :: "pystr \<Rightarrow> pystr" where
  "strip s = rstrip (lstrip s)"

text \<open>\<open>s.find(sub)\<close>: the index of the first occurrence of \<open>sub\<close> in \<open>s\<close>, if any.\<close>

fun find_sub :: "pystr \<Rightarrow> pystr \<Rightarrow> nat option" where
  "find_sub sub [] = (if sub = [] then Some 0 else None)"
| "find_sub sub (c # cs) =
     (if prefix sub (c # cs) then Some 0
      else map_option Suc (find_sub sub cs))"

text \<open>\<open>sub in s\<close>.\<close>

definition contains :: "pystr \<Rightarrow> pystr \<Rightarrow> bool" where
  "contains sub s \<longleftrightarrow> find_sub sub s \<noteq> None"

text \<open>\<open>s.split(sep, 1)\<close> for a non-empty separator: one or two pieces.\<close>

definition split1 :: "pystr \<Rightarrow> pystr \<Rightarrow> pystr list" where
  "split1 sep s =
     (case find_sub sep s of
        None \<Rightarrow> [s]
      | Some i \<Rightarrow> [take i s, drop (i + length sep) s])"

text \<open>
  \<open>s.replace(old, new)\<close>: every occurrence of \<open>old\<close>, found left to right without overlap,
  is replaced. With an empty \<open>old\<close> Python inserts \<open>new\<close> before every code point and at
  the end.
\<close>

function replace :: "pystr \<Rightarrow> pystr \<Rightarrow> pystr \<Rightarrow> pystr" where
  "replace old new [] = (if old = [] then new else [])"
| "replace old new (c # cs) =
     (if old = [] then new @ c # replace old new cs
      else if prefix old (c # cs) then new @ replace old new (drop (length old) (c # cs))
      else c # replace old new cs)"
  by pat_completeness auto
termination
  by (relation "measure (\<lambda>(old, new, s). length s)") (auto simp: Suc_le_eq)

section \<open>Configuration\<close>

definition CACHE_TTL_SECONDS :: real where
  "CACHE_TTL_SECONDS = 15 * 60"

definition MAX_ITEMS_TOTAL :: nat where
  "MAX_ITEMS_TOTAL = 700"

definition SUMMARY_CHARS_DETAIL :: int where
  "SUMMARY_CHARS_DETAIL = 1400"

definition AUTO_SPEAK_NEWEST_HEADLINE_ON_CHANGE :: bool where
  "AUTO_SPEAK_NEWEST_HEADLINE_ON_CHANGE = True"

definition AUTO_SPEAK_ON_START :: bool where
  "AUTO_SPEAK_ON_START = False"

definition AUTO_SPEAK_INCLUDE_SUMMARY :: bool where
  "AUTO_SPEAK_INCLUDE_SUMMARY = False"

section \<open>Utilities\<close>

text \<open>
  \<open>_strip_html\<close>: the loop keeps the flag \<open>in_tag\<close> and the output collected so far; the
  result has every no-break space replaced by a space and is stripped.
\<close>

fun strip_html_loop :: "bool \<Rightarrow> pystr \<Rightarrow> pystr" where
  "strip_html_loop in_tag [] = []"
| "strip_html_loop in_tag (ch # rest) =
     (if ch = 60 then strip_html_loop True rest
      else if ch = 62 then strip_html_loop False rest
      else if \<not> in_tag then ch # strip_html_loop in_tag rest
      else strip_html_loop in_tag rest)"

definition strip_html :: "pystr \<Rightarrow> pystr" where
  "strip_html text = strip (map (\<lambda>c. if c = 160 then 32 else c) (strip_html_loop False text))"

text \<open>\<open>_truncate(s, n)\<close> (the name \<open>truncate\<close> belongs to the record package); \<open>n\<close> is a Python int, so it may be zero or negative.\<close>

definition truncate_str :: "pystr \<Rightarrow> int \<Rightarrow> pystr" where
  "truncate_str s0 n =
     (let s = strip s0 in
      if int (length s) \<le> n then s
      else rstrip (take (nat (max 0 (n - 1))) s) @ ELLIPSIS)"

text \<open>
  \<open>_domain_from_url\<close>. \<open>str.lower\<close> is the Unicode library's case mapping and is a
  parameter. Both indexings are in range (the first is guarded by the \<open>in\<close> test, and
  \<open>split\<close> returns at least one piece), so the exception handler of the source is never
  entered; the model returns its value, the empty string, on the impossible branches.
\<close>

definition domain_from_url :: "(pystr \<Rightarrow> pystr) \<Rightarrow> pystr \<Rightarrow> pystr" where
  "domain_from_url lower url0 =
     (let url = strip url0 in
      if url = [] then []
      else
        (case (if contains (str ''://'') url
               then (case split1 (str ''://'') url of [_, r] \<Rightarrow> Some r | _ \<Rightarrow> None)
               else Some url) of
           None \<Rightarrow> []
         | Some rest \<Rightarrow>
             (case split1 (str ''/'') rest of
                [] \<Rightarrow> []
              | host # _ \<Rightarrow> replace (str ''www.'') [] (lower host))))"

text \<open>What \<open>str.lower\<close> does on a string of ASCII code points.\<close>

definition ascii_lower :: "pystr \<Rightarrow> pystr" where
  "ascii_lower s = map (\<lambda>c. if 65 \<le> c \<and> c \<le> 90 then c + 32 else c) s"

definition ascii_upper :: "pystr \<Rightarrow> pystr" where
  "ascii_upper s = map (\<lambda>c. if 97 \<le> c \<and> c \<le> 122 then c - 32 else c) s"

section \<open>Models\<close>

text \<open>
  The dataclasses \<open>Item\<close> and \<open>FeedStatus\<close>. The field \<open>id\<close> is named \<open>item_id\<close> and
  the fields of \<open>FeedStatus\<close> carry the prefix \<open>st_\<close>, since record fields are constants
  of the theory. A publish time is a finite float; it is modelled by the real number it
  denotes.
\<close>

record item =
  item_id :: pystr
  epoch :: real
  ts :: pystr
  cat :: pystr
  src :: pystr
  src_code :: pystr
  title :: pystr
  summary :: pystr
  url :: pystr
  domain :: pystr
  is_new :: bool

datatype status = OK | FAIL

record feed_status =
  st_name :: pystr
  st_cat :: pystr
  st_status :: status
  st_used_url :: pystr
  st_error :: pystr
  st_count :: nat

text \<open>One entry of \<open>FEEDS\<close>, and one dictionary returned by \<open>parse_feed_best_effort\<close>.\<close>

record feed =
  f_cat :: pystr
  f_name :: pystr
  f_urls :: "pystr list"

record rawrec =
  p_title :: pystr
  p_url :: pystr
  p_summary :: pystr
  p_date :: pystr

text \<open>A raised exception: the name of its type and its message.\<close>

datatype exn = Exn (exn_type: pystr) (exn_msg: pystr)

text \<open>\<open>f"{type(e).__name__}: {e}"\<close>\<close>

definition format_exn :: "exn \<Rightarrow> pystr" where
  "format_exn e = exn_type e @ str '': '' @ exn_msg e"

section \<open>The environment of one call\<close>

text \<open>
  What the program takes from outside: the transport (\<open>urllib\<close>), the XML decoding of
  \<open>parse_feed_best_effort\<close> (built on \<open>xml.etree\<close>; it returns the records or raises), the
  library functions on text and dates, the two readings of \<open>time.time()\<close>, and whether
  the two \<open>write_text\<close> calls raise. The date functions return \<open>None\<close> where the library
  raises.
\<close>

record env =
  http_get :: "pystr \<Rightarrow> exn + nat list"
  parse_feed_best_effort :: "nat list \<Rightarrow> exn + rawrec list"
  html_unescape :: "pystr \<Rightarrow> pystr"
  parsedate_timestamp :: "pystr \<Rightarrow> real option"
  isoformat_timestamp :: "pystr \<Rightarrow> real option"
  strftime_hhmm :: "real \<Rightarrow> pystr option"
  str_lower :: "pystr \<Rightarrow> pystr"
  str_upper :: "pystr \<Rightarrow> pystr"
  time_at_load :: real
  time_at_save :: real
  fetched_at_now :: pystr
  seen_write_error :: "exn option"
  cache_write_error :: "exn option"

text \<open>
  The two files and the trace of what the call did to the outside. The cache file is
  absent, unreadable (reading it, decoding it or converting its \<open>cache_ts\<close> raises), or
  holds a snapshot of the shape \<open>save_cache\<close> writes. The seen file is represented by the
  set of strings its JSON array holds, \<open>None\<close> when it is absent, unreadable or not an
  array.
\<close>

record snapshot =
  cache_ts :: real
  fetched_at :: pystr
  c_items :: "item list"
  c_statuses :: "feed_status list"

datatype cache_content = NoFile | Unreadable | Snapshot snapshot

datatype event = ReadCache | ReadSeen | HttpGet pystr | WriteSeen | WriteCache

record world =
  cache_file :: cache_content
  seen_file :: "pystr set option"
  trace :: "event list"

definition parse_date_any :: "env \<Rightarrow> pystr \<Rightarrow> real" where
  "parse_date_any E s0 =
     (let s = strip s0 in
      if s = [] then 0
      else
        (case parsedate_timestamp E s of
           Some t \<Rightarrow> t
         | None \<Rightarrow>
             (let s' = (if suffix (str ''Z'') s then butlast s @ str ''+00:00'' else s) in
              case isoformat_timestamp E s' of Some t \<Rightarrow> t | None \<Rightarrow> 0)))"

definition fmt_hhmm :: "env \<Rightarrow> real \<Rightarrow> pystr" where
  "fmt_hhmm E e =
     (if e = 0 then str ''--:--''
      else (case strftime_hhmm E e of Some t \<Rightarrow> t | None \<Rightarrow> str ''--:--''))"

section \<open>Persistence\<close>

definition load_seen :: "world \<Rightarrow> pystr set \<times> world" where
  "load_seen w =
     ((case seen_file w of Some xs \<Rightarrow> xs | None \<Rightarrow> {}), w\<lparr>trace := trace w @ [ReadSeen]\<rparr>)"

text \<open>\<open>save_seen\<close> swallows the exception of a failed write; the file then keeps its content.\<close>

definition save_seen :: "env \<Rightarrow> pystr set \<Rightarrow> world \<Rightarrow> world" where
  "save_seen E seen w =
     (case seen_write_error E of
        None \<Rightarrow> w\<lparr>seen_file := Some seen, trace := trace w @ [WriteSeen]\<rparr>
      | Some e \<Rightarrow> w\<lparr>trace := trace w @ [WriteSeen]\<rparr>)"

definition load_cache :: "env \<Rightarrow> world \<Rightarrow> snapshot option \<times> world" where
  "load_cache E w =
     (case cache_file w of
        NoFile \<Rightarrow> (None, w)
      | Unreadable \<Rightarrow> (None, w\<lparr>trace := trace w @ [ReadCache]\<rparr>)
      | Snapshot data \<Rightarrow>
          (let age = time_at_load E - cache_ts data in
           (if age \<le> CACHE_TTL_SECONDS then Some data else None,
            w\<lparr>trace := trace w @ [ReadCache]\<rparr>)))"

text \<open>\<open>save_cache\<close> has no handler: the exception of a failed write leaves the function.\<close>

definition save_cache :: "env \<Rightarrow> item list \<Rightarrow> feed_status list \<Rightarrow> world \<Rightarrow> exn option \<times> world" where
  "save_cache E its sts w =
     (let payload = \<lparr>cache_ts = time_at_save E, fetched_at = fetched_at_now E,
                      c_items = its, c_statuses = sts\<rparr> in
      case cache_write_error E of
        None \<Rightarrow> (None, w\<lparr>cache_file := Snapshot payload, trace := trace w @ [WriteCache]\<rparr>)
      | Some e \<Rightarrow> (Some e, w\<lparr>trace := trace w @ [WriteCache]\<rparr>))"

section \<open>The feed registry\<close>

definition SRC_CODE :: "(pystr \<times> pystr) list" where
  "SRC_CODE =
    [(str ''CBC Top Stories'', str ''CBC''),
     (str ''CBC Canada'', str ''CBC''),
     (str ''Al Jazeera'', str ''AJZ''),
     (str ''The Guardian World'', str ''GDN''),
     (str ''The Guardian Business'', str ''GDN''),
     (str ''BBC World'', str ''BBC''),
     (str ''BBC Sci/Env'', str ''BBC''),
     (str ''Ars Technica'', str ''ARS''),
     (str ''The Register'', str ''REG''),
     (str ''Hacker News'', str ''HN''),
     (str ''ScienceDaily'', str ''SCI''),
     (str ''NASA Breaking'', str ''NASA''),
     (str ''arXiv cs.AI'', str ''ARX''),
     (str ''arXiv cs.LG'', str ''ARX''),
     (str ''Bank of Canada News'', str ''BoC''),
     (str ''BoC Press Releases'', str ''BoC''),
     (str ''BoC Market Notices'', str ''BoC''),
     (str ''WTO Latest News'', str ''WTO''),
     (str ''Env Canada (BC Warnings)'', str ''ECCC'')]"

definition FEEDS :: "feed list" where
  "FEEDS =
    [\<lparr>f_cat = str ''NEWS'', f_name = str ''CBC Top Stories'',
       f_urls = [str ''https://www.cbc.ca/webfeed/rss/rss-topstories'']\<rparr>,
     \<lparr>f_cat = str ''NEWS'', f_name = str ''CBC Canada'',
       f_urls = [str ''https://www.cbc.ca/webfeed/rss/rss-canada'']\<rparr>,
     \<lparr>f_cat = str ''WORLD'', f_name = str ''Al Jazeera'',
       f_urls = [str ''https://www.aljazeera.com/xml/rss/all.xml'']\<rparr>,
     \<lparr>f_cat = str ''WORLD'', f_name = str ''The Guardian World'',
       f_urls = [str ''https://www.theguardian.com/world/rss'']\<rparr>,
     \<lparr>f_cat = str ''WORLD'', f_name = str ''BBC World'',
       f_urls = [str ''http://feeds.bbci.co.uk/news/world/rss.xml'']\<rparr>,
     \<lparr>f_cat = str ''FINANCE'', f_name = str ''The Guardian Business'',
       f_urls = [str ''https://www.theguardian.com/business/rss'']\<rparr>,
     \<lparr>f_cat = str ''ECONOMY'', f_name = str ''Bank of Canada News'',
       f_urls = [str ''https://www.bankofcanada.ca/utility/news/feed/'']\<rparr>,
     \<lparr>f_cat = str ''ECONOMY'', f_name = str ''BoC Press Releases'',
       f_urls = [str ''https://www.bankofcanada.ca/content_type/press-releases/feed/'']\<rparr>,
     \<lparr>f_cat = str ''FINANCE'', f_name = str ''BoC Market Notices'',
       f_urls = [str ''https://www.bankofcanada.ca/content_type/notices/feed/'']\<rparr>,
     \<lparr>f_cat = str ''TRADE'', f_name = str ''WTO Latest News'',
       f_urls = [str ''https://www.wto.org/library/rss/latest_news_e.xml'']\<rparr>,
     \<lparr>f_cat = str ''SCIENCE'', f_name = str ''ScienceDaily'',
       f_urls = [str ''https://www.sciencedaily.com/rss/all.xml'']\<rparr>,
     \<lparr>f_cat = str ''SCIENCE'', f_name = str ''BBC Sci/Env'',
       f_urls = [str ''http://feeds.bbci.co.uk/news/science_and_environment/rss.xml'']\<rparr>,
     \<lparr>f_cat = str ''SCIENCE'', f_name = str ''NASA Breaking'',
       f_urls = [str ''https://www.nasa.gov/rss/dyn/breaking_news.rss'']\<rparr>,
     \<lparr>f_cat = str ''RESEARCH'', f_name = str ''arXiv cs.AI'',
       f_urls = [str ''http://export.arxiv.org/rss/cs.AI'']\<rparr>,
     \<lparr>f_cat = str ''RESEARCH'', f_name = str ''arXiv cs.LG'',
       f_urls = [str ''http://export.arxiv.org/rss/cs.LG'']\<rparr>,
     \<lparr>f_cat = str ''TECH'', f_name = str ''Ars Technica'',
       f_urls = [str ''https://feeds.arstechnica.com/arstechnica/index'']\<rparr>,
     \<lparr>f_cat = str ''TECH'', f_name = str ''The Register'',
       f_urls = [str ''https://www.theregister.com/headlines.atom'']\<rparr>,
     \<lparr>f_cat = str ''TECH'', f_name = str ''Hacker News'',
       f_urls = [str ''https://hnrss.org/frontpage'']\<rparr>,
     \<lparr>f_cat = str ''WEATHER'', f_name = str ''Env Canada (BC Warnings)'',
       f_urls = [str ''https://weather.gc.ca/rss/battleboard/bcrm1_e.xml'']\<rparr>]"

section \<open>Fetch\<close>

text \<open>
  The body of the loop over the parsed records: one record becomes one \<open>Item\<close>. Every
  helper it calls handles its own exceptions, so the body does not raise.
\<close>

definition make_item :: "env \<Rightarrow> pystr set \<Rightarrow> pystr \<Rightarrow> pystr \<Rightarrow> rawrec \<Rightarrow> item" where
  "make_item E seen c name p =
     (let title_raw = html_unescape E (strip_html (p_title p));
          summary_raw = html_unescape E (strip_html (p_summary p));
          u = strip (p_url p);
          fallback_id = name @ str ''|'' @ take 200 title_raw @ str ''|'' @ take 50 (p_date p);
          i = (if u \<noteq> [] then u else fallback_id);
          e = parse_date_any E (p_date p);
          d = domain_from_url (str_lower E) u;
          new = (i \<notin> seen);
          t = truncate_str title_raw 260
      in \<lparr>item_id = i, epoch = e, ts = fmt_hhmm E e, cat = c, src = name,
          src_code = (case map_of SRC_CODE name of
                        Some code \<Rightarrow> code
                      | None \<Rightarrow> str_upper E (take 6 name)),
          title = (if t \<noteq> [] then t else str ''(no title)''),
          summary = truncate_str summary_raw SUMMARY_CHARS_DETAIL,
          url = u, domain = d, is_new = new\<rparr>)"

text \<open>\<open>for p in parsed\<close>: appends to \<open>items\<close> and counts.\<close>

fun for_parsed ::
  "env \<Rightarrow> pystr set \<Rightarrow> pystr \<Rightarrow> pystr \<Rightarrow> rawrec list \<Rightarrow> item list \<times> nat \<Rightarrow> item list \<times> nat" where
  "for_parsed E seen c name [] acc = acc"
| "for_parsed E seen c name (p # ps) (its, n) =
     for_parsed E seen c name ps (its @ [make_item E seen c name p], n + 1)"

text \<open>
  The variables of one iteration of \<open>for f in FEEDS\<close> that the loop over the URLs
  updates, with the list \<open>items\<close> and the trace.
\<close>

record attempt =
  a_items :: "item list"
  a_trace :: "event list"
  used_url :: pystr
  last_err :: pystr
  count :: nat

text \<open>
  \<open>for u in urls\<close>: an exception of \<open>http_get\<close> or of the parser is recorded and the next
  URL is tried; the first URL that is fetched and parsed ends the loop (\<open>break\<close>).
\<close>

fun for_urls :: "env \<Rightarrow> pystr set \<Rightarrow> feed \<Rightarrow> pystr list \<Rightarrow> attempt \<Rightarrow> attempt" where
  "for_urls E seen f [] a = a"
| "for_urls E seen f (u # us) a =
     (let a1 = a\<lparr>a_trace := a_trace a @ [HttpGet u]\<rparr> in
      case http_get E u of
        Inl e \<Rightarrow> for_urls E seen f us (a1\<lparr>last_err := format_exn e\<rparr>)
      | Inr raw \<Rightarrow>
          (case parse_feed_best_effort E raw of
             Inl e \<Rightarrow> for_urls E seen f us (a1\<lparr>last_err := format_exn e\<rparr>)
           | Inr parsed \<Rightarrow>
               (case for_parsed E seen (f_cat f) (f_name f) parsed (a_items a1, count a1) of
                  (its, n) \<Rightarrow> a1\<lparr>a_items := its, count := n, used_url := u, last_err := []\<rparr>)))"

text \<open>The status appended after the loop over the URLs of one feed.\<close>

definition status_of :: "feed \<Rightarrow> attempt \<Rightarrow> feed_status" where
  "status_of f a =
     (if count a > 0 \<and> last_err a = []
      then \<lparr>st_name = f_name f, st_cat = f_cat f, st_status = OK,
            st_used_url = used_url a, st_error = [], st_count = count a\<rparr>
      else \<lparr>st_name = f_name f, st_cat = f_cat f, st_status = FAIL,
            st_used_url = (case f_urls f of [] \<Rightarrow> [] | u0 # _ \<Rightarrow> u0),
            st_error = last_err a, st_count = 0\<rparr>)"

text \<open>\<open>for f in FEEDS\<close>, on the lists \<open>items\<close> and \<open>statuses\<close> and the trace.\<close>

fun for_feeds ::
  "env \<Rightarrow> pystr set \<Rightarrow> feed list \<Rightarrow> item list \<times> feed_status list \<times> event list \<Rightarrow>
   item list \<times> feed_status list \<times> event list" where
  "for_feeds E seen [] acc = acc"
| "for_feeds E seen (f # fs) (its, sts, tr) =
     (let a = for_urls E seen f (f_urls f)
                \<lparr>a_items = its, a_trace = tr, used_url = [], last_err = [], count = 0\<rparr>
      in for_feeds E seen fs (a_items a, sts @ [status_of f a], a_trace a))"

text \<open>
  \<open>items.sort(key=..., reverse=True)\<close>. Python's sort is stable, and with \<open>reverse=True\<close>
  it reverses the list, sorts it in ascending order of the key, and reverses the result.
\<close>

definition sort_reverse :: "('a \<Rightarrow> real) \<Rightarrow> 'a list \<Rightarrow> 'a list" where
  "sort_reverse k xs = rev (sort_key k (rev xs))"

text \<open>\<open>float(x.epoch or 0.0)\<close>\<close>

definition epoch_key :: "item \<Rightarrow> real" where
  "epoch_key x = (if epoch x \<noteq> 0 then epoch x else 0)"

text \<open>
  The live pass of \<open>fetch_all\<close> over a list of feeds, and \<open>fetch_all\<close> itself over \<open>FEEDS\<close>.
  The result is the raised exception or the returned triple, with the world after the call.
\<close>

definition live_pass ::
  "feed list \<Rightarrow> env \<Rightarrow> world \<Rightarrow> (exn + item list \<times> feed_status list \<times> pystr) \<times> world" where
  "live_pass feeds E w =
     (case load_seen w of
        (seen, w1) \<Rightarrow>
          (case for_feeds E seen feeds ([], [], trace w1) of
             (collected, statuses, tr) \<Rightarrow>
               (let its = take MAX_ITEMS_TOTAL (sort_reverse epoch_key collected);
                    seen' = seen \<union> {item_id it | it. it \<in> set its \<and> item_id it \<noteq> []};
                    w2 = save_seen E seen' (w1\<lparr>trace := tr\<rparr>)
                in case save_cache E its statuses w2 of
                     (Some e, w3) \<Rightarrow> (Inl e, w3)
                   | (None, w3) \<Rightarrow> (Inr (its, statuses, str ''live''), w3))))"

definition fetch_all_feeds ::
  "feed list \<Rightarrow> env \<Rightarrow> world \<Rightarrow> bool \<Rightarrow>
   (exn + item list \<times> feed_status list \<times> pystr) \<times> world" where
  "fetch_all_feeds feeds E w force_refresh =
     (if \<not> force_refresh then
        (case load_cache E w of
           (Some cached, w1) \<Rightarrow> (Inr (c_items cached, c_statuses cached, str ''cache''), w1)
         | (None, w1) \<Rightarrow> live_pass feeds E w1)
      else live_pass feeds E w)"

definition fetch_all ::
  "env \<Rightarrow> world \<Rightarrow> bool \<Rightarrow> (exn + item list \<times> feed_status list \<times> pystr) \<times> world" where
  "fetch_all E w force_refresh = fetch_all_feeds FEEDS E w force_refresh"

section \<open>What a pass does, feed by feed\<close>

text \<open>
  The notions the statements below are written in. One attempt is the fetch of a URL
  followed by the parse of what was fetched; it yields the records or the exception.
\<close>

definition fetch_parse :: "env \<Rightarrow> pystr \<Rightarrow> exn + rawrec list" where
  "fetch_parse E u =
     (case http_get E u of Inl e \<Rightarrow> Inl e | Inr raw \<Rightarrow> parse_feed_best_effort E raw)"

text \<open>The first URL of a list whose attempt succeeds, with its records.\<close>

fun first_ok :: "env \<Rightarrow> pystr list \<Rightarrow> (pystr \<times> rawrec list) option" where
  "first_ok E [] = None"
| "first_ok E (u # us) =
     (case fetch_parse E u of Inr parsed \<Rightarrow> Some (u, parsed) | Inl e \<Rightarrow> first_ok E us)"

text \<open>The URLs requested for a feed: up to and including the first that succeeds.\<close>

fun tried :: "env \<Rightarrow> pystr list \<Rightarrow> pystr list" where
  "tried E [] = []"
| "tried E (u # us) = (case fetch_parse E u of Inr parsed \<Rightarrow> [u] | Inl e \<Rightarrow> u # tried E us)"


text \<open>The formatted exception of the attempt on the last URL; empty for no URL.\<close>

definition last_error :: "env \<Rightarrow> pystr list \<Rightarrow> pystr" where
  "last_error E us =
     (case rev us of
        [] \<Rightarrow> []
      | u # _ \<Rightarrow> (case fetch_parse E u of Inl e \<Rightarrow> format_exn e | Inr parsed \<Rightarrow> []))"

text \<open>The items one feed adds to the collection, and the collection of a list of feeds.\<close>

definition contribution :: "env \<Rightarrow> pystr set \<Rightarrow> feed \<Rightarrow> item list" where
  "contribution E seen f =
     (case first_ok E (f_urls f) of
        None \<Rightarrow> []
      | Some (u, parsed) \<Rightarrow> map (make_item E seen (f_cat f) (f_name f)) parsed)"

definition merged :: "env \<Rightarrow> pystr set \<Rightarrow> feed list \<Rightarrow> item list" where
  "merged E seen feeds = concat (map (contribution E seen) feeds)"

definition first_url :: "feed \<Rightarrow> pystr" where
  "first_url f = (case f_urls f of [] \<Rightarrow> [] | u0 # _ \<Rightarrow> u0)"

text \<open>The status reported for one feed.\<close>

definition outcome :: "env \<Rightarrow> feed \<Rightarrow> feed_status" where
  "outcome E f =
     (case first_ok E (f_urls f) of
        None \<Rightarrow>
          \<lparr>st_name = f_name f, st_cat = f_cat f, st_status = FAIL,
           st_used_url = first_url f, st_error = last_error E (f_urls f), st_count = 0\<rparr>
      | Some (u, parsed) \<Rightarrow>
          (if parsed = []
           then \<lparr>st_name = f_name f, st_cat = f_cat f, st_status = FAIL,
                 st_used_url = first_url f, st_error = [], st_count = 0\<rparr>
           else \<lparr>st_name = f_name f, st_cat = f_cat f, st_status = OK,
                 st_used_url = u, st_error = [], st_count = length parsed\<rparr>))"

text \<open>The seen ledger as \<open>load_seen\<close> reads it.\<close>

definition ledger :: "world \<Rightarrow> pystr set" where
  "ledger w = (case seen_file w of Some xs \<Rightarrow> xs | None \<Rightarrow> {})"

section \<open>The narration worker\<close>

text \<open>
  The entries of the worker's queue: \<open>("speak", text)\<close>, \<open>("stop", None)\<close> and
  \<open>("__quit__", None)\<close>.
\<close>

datatype cmd = Speak pystr | Stop | Quit

text \<open>
  Where the worker thread is: at the test of \<open>while self._alive\<close>, blocked in
  \<open>self._q.get()\<close>, inside \<open>p.wait()\<close> for the process it started, or returned from
  \<open>_run\<close>.
\<close>

datatype pc = Head | Get | Wait nat | Exited

text \<open>
  The fields \<open>_q\<close>, \<open>_proc\<close> and \<open>_alive\<close> of \<open>WindowsTTSWorker\<close>, with the position of
  the thread, the speech processes that are running (by process id), the next process id
  the system hands out, and the texts for which a process was started.
\<close>

record worker =
  q :: "cmd list"
  proc :: "nat option"
  alive :: bool
  pc :: pc
  running :: "nat set"
  next_pid :: nat
  launched :: "(nat \<times> pystr) list"

definition worker_init :: worker where
  "worker_init =
     \<lparr>q = [], proc = None, alive = True, pc = Head, running = {}, next_pid = 0, launched = []\<rparr>"

text \<open>The methods the owning thread calls; each only writes to the queue or the flag.\<close>

definition speak_async :: "pystr \<Rightarrow> worker \<Rightarrow> worker" where
  "speak_async text0 w =
     (let text = strip text0 in
      if text = [] then w else w\<lparr>q := q w @ [Speak text]\<rparr>)"









section \<open>The auto-speak latch\<close>

text \<open>The fields \<open>_first_load_done\<close> and \<open>_last_newest_headline_id\<close> of \<open>RSSDOSApp\<close>.\<close>

record latch =
  first_load_done :: bool
  last_newest_headline_id :: "pystr option"

definition latch_init :: latch where
  "latch_init = \<lparr>first_load_done = False, last_newest_headline_id = None\<rparr>"

definition compose_speak_text :: "item \<Rightarrow> bool \<Rightarrow> pystr" where
  "compose_speak_text it include_summary =
     (let part = cat it @ str ''. '' @ src_code it @ str ''. '' @ title it @ str ''.'' in
      if include_summary \<and> summary it \<noteq> [] then part @ str '' '' @ summary it else part)"

text \<open>
  \<open>_auto_speak_newest_headline_if_changed\<close>, on the list \<open>_headline_items\<close>, the latch and
  the worker whose \<open>speak_async\<close> it calls.
\<close>

definition auto_speak_newest_headline_if_changed ::
  "item list \<Rightarrow> latch \<times> worker \<Rightarrow> latch \<times> worker" where
  "auto_speak_newest_headline_if_changed headline_items s =
     (case s of (l, tts) \<Rightarrow>
      if \<not> AUTO_SPEAK_NEWEST_HEADLINE_ON_CHANGE then (l\<lparr>first_load_done := True\<rparr>, tts)
      else
        (case headline_items of
           [] \<Rightarrow> (l\<lparr>first_load_done := True\<rparr>, tts)
         | newest # _ \<Rightarrow>
             (let newest_id = item_id newest in
              if \<not> first_load_done l
              then (l\<lparr>first_load_done := True, last_newest_headline_id := Some newest_id\<rparr>,
                    if AUTO_SPEAK_ON_START
                    then speak_async (compose_speak_text newest AUTO_SPEAK_INCLUDE_SUMMARY) tts
                    else tts)
              else if newest_id \<noteq> [] \<and>
                      newest_id \<noteq> (case last_newest_headline_id l of None \<Rightarrow> [] | Some i \<Rightarrow> i)
              then (l\<lparr>last_newest_headline_id := Some newest_id\<rparr>,
                    speak_async (compose_speak_text newest AUTO_SPEAK_INCLUDE_SUMMARY) tts)
              else (l, tts))))"

text \<open>A sequence of passes, each with its list of headline items.\<close>

definition passes :: "item list list \<Rightarrow> latch \<times> worker \<Rightarrow> latch \<times> worker" where
  "passes hs s = foldl (\<lambda>s h. auto_speak_newest_headline_if_changed h s) s hs"

section \<open>Notions used in the statements\<close>

text \<open>The parts of what a call returns; a call that raises returns nothing.\<close>

definition items_of :: "(exn + item list \<times> feed_status list \<times> pystr) \<times> world \<Rightarrow> item list" where
  "items_of r = (case fst r of Inr (its, sts, prov) \<Rightarrow> its | Inl e \<Rightarrow> [])"

definition statuses_of ::
  "(exn + item list \<times> feed_status list \<times> pystr) \<times> world \<Rightarrow> feed_status list" where
  "statuses_of r = (case fst r of Inr (its, sts, prov) \<Rightarrow> sts | Inl e \<Rightarrow> [])"

definition provenance_of :: "(exn + item list \<times> feed_status list \<times> pystr) \<times> world \<Rightarrow> pystr" where
  "provenance_of r = (case fst r of Inr (its, sts, prov) \<Rightarrow> prov | Inl e \<Rightarrow> [])"

text \<open>
  The host of a URL as the specification speaks of it: what follows the first \<open>://\<close> (the
  whole text when there is none), up to the first \<open>/\<close>; and the removal of one leading
  \<open>www.\<close> from a host.
\<close>

definition url_host :: "pystr \<Rightarrow> pystr" where
  "url_host u =
     takeWhile (\<lambda>c. c \<noteq> 47)
       (case find_sub (str ''://'') u of None \<Rightarrow> u | Some i \<Rightarrow> drop (i + 3) u)"

definition strip_leading_www :: "pystr \<Rightarrow> pystr" where
  "strip_leading_www h = (if prefix (str ''www.'') h then drop 4 h else h)"


section \<open>Concrete environments\<close>

text \<open>
  A machine without network at 2023-11-14 22:13:20 UTC: every request raises, no date is
  parsed, text has no entities, and both files can be written.
\<close>

definition env_offline :: env where
  "env_offline =
     \<lparr>http_get = (\<lambda>u. Inl (Exn (str ''URLError'') (str ''<urlopen error timed out>''))),
      parse_feed_best_effort = (\<lambda>raw. Inl (Exn (str ''ParseError'') (str ''syntax error''))),
      html_unescape = (\<lambda>s. s),
      parsedate_timestamp = (\<lambda>s. None),
      isoformat_timestamp = (\<lambda>s. None),
      strftime_hhmm = (\<lambda>e. Some (str ''12:00'')),
      str_lower = ascii_lower,
      str_upper = ascii_upper,
      time_at_load = 1700000000,
      time_at_save = 1700000020,
      fetched_at_now = str ''2023-11-14 22:13:40'',
      seen_write_error = None,
      cache_write_error = None\<rparr>"

definition world_fresh :: world where
  "world_fresh = \<lparr>cache_file = NoFile, seen_file = None, trace = []\<rparr>"

definition url_topstories :: pystr where
  "url_topstories = str ''https://www.cbc.ca/webfeed/rss/rss-topstories''"

definition url_canada :: pystr where
  "url_canada = str ''https://www.cbc.ca/webfeed/rss/rss-canada''"

definition rec_storm :: rawrec where
  "rec_storm =
     \<lparr>p_title = str ''Storm warning'', p_url = str ''https://www.cbc.ca/news/storm'',
      p_summary = str ''<p>Heavy rain</p>'', p_date = []\<rparr>"

text \<open>Only the first feed answers, with one story.\<close>

definition env_one_story :: env where
  "env_one_story =
     env_offline
       \<lparr>http_get := (\<lambda>u. if u = url_topstories then Inr [1]
                          else Inl (Exn (str ''URLError'') (str ''<urlopen error timed out>''))),
        parse_feed_best_effort := (\<lambda>raw. Inr [rec_storm])\<rparr>"

text \<open>The two CBC feeds answer, and both carry the same story.\<close>

definition env_same_story :: env where
  "env_same_story =
     env_offline
       \<lparr>http_get := (\<lambda>u. if u = url_topstories \<or> u = url_canada then Inr [1]
                          else Inl (Exn (str ''URLError'') (str ''<urlopen error timed out>''))),
        parse_feed_best_effort := (\<lambda>raw. Inr [rec_storm])\<rparr>"

text \<open>The first feed answers with a well-formed document that has no entry.\<close>

definition env_empty_channel :: env where
  "env_empty_channel = env_one_story\<lparr>parse_feed_best_effort := (\<lambda>raw. Inr [])\<rparr>"

text \<open>
  The first feed answers with an undated entry followed by one dated 1 January 1965,
  whose timestamp is negative.
\<close>

definition rec_undated :: rawrec where
  "rec_undated =
     \<lparr>p_title = str ''Undated'', p_url = str ''https://www.cbc.ca/news/undated'',
      p_summary = [], p_date = []\<rparr>"

definition rec_1965 :: rawrec where
  "rec_1965 =
     \<lparr>p_title = str ''From the archive'', p_url = str ''https://www.cbc.ca/news/archive'',
      p_summary = [], p_date = str ''Fri, 01 Jan 1965 00:00:00 GMT''\<rparr>"

definition env_archive :: env where
  "env_archive =
     env_one_story
       \<lparr>parse_feed_best_effort := (\<lambda>raw. Inr [rec_undated, rec_1965]),
        parsedate_timestamp :=
          (\<lambda>s. if s = str ''Fri, 01 Jan 1965 00:00:00 GMT'' then Some (- 157766400) else None)\<rparr>"

text \<open>The first feed answers with an entry whose host has \<open>www.\<close> after its first label.\<close>

definition rec_blog :: rawrec where
  "rec_blog =
     \<lparr>p_title = str ''Post'', p_url = str ''https://blog.www.example.com/post/1'',
      p_summary = [], p_date = []\<rparr>"

definition env_blog :: env where
  "env_blog = env_one_story\<lparr>parse_feed_best_effort := (\<lambda>raw. Inr [rec_blog])\<rparr>"

text \<open>The cache file cannot be written.\<close>

definition env_cache_readonly :: env where
  "env_cache_readonly =
     env_one_story
       \<lparr>cache_write_error :=
          Some (Exn (str ''PermissionError'') (str ''[Errno 13] Permission denied''))\<rparr>"

text \<open>The seen file cannot be written.\<close>

definition env_seen_readonly :: env where
  "env_seen_readonly =
     env_one_story
       \<lparr>seen_write_error :=
          Some (Exn (str ''PermissionError'') (str ''[Errno 13] Permission denied''))\<rparr>"

text \<open>A cache written exactly \<open>CACHE_TTL_SECONDS\<close> before the clock of \<open>env_offline\<close>.\<close>

definition item_storm :: item where
  "item_storm = make_item env_offline {} (str ''NEWS'') (str ''CBC Top Stories'') rec_storm"

definition snapshot_at_ttl :: snapshot where
  "snapshot_at_ttl =
     \<lparr>cache_ts = 1699999100, fetched_at = str ''2023-11-14 21:58:20'',
      c_items = [item_storm], c_statuses = []\<rparr>"

definition world_cached :: world where
  "world_cached =
     \<lparr>cache_file = Snapshot snapshot_at_ttl,
      seen_file = Some {str ''https://www.cbc.ca/news/storm''}, trace = []\<rparr>"

text \<open>
  Two titles of 300 code points without blanks at their ends: one of letters only, and
  one whose 259th code point is a space.
\<close>

definition title_plain :: pystr where
  "title_plain = replicate 300 97"

definition title_space_at_cut :: pystr where
  "title_space_at_cut = replicate 258 97 @ [32] @ replicate 41 98"

text \<open>Two headlines with the ids \<open>A\<close> and \<open>B\<close>.\<close>

definition headline_A :: item where
  "headline_A =
     \<lparr>item_id = str ''A'', epoch = 1700000000, ts = str ''12:00'', cat = str ''NEWS'',
      src = str ''CBC Top Stories'', src_code = str ''CBC'', title = str ''First'',
      summary = [], url = str ''A'', domain = str ''a'', is_new = True\<rparr>"

definition headline_B :: item where
  "headline_B =
     \<lparr>item_id = str ''B'', epoch = 1700000100, ts = str ''12:01'', cat = str ''WORLD'',
      src = str ''BBC World'', src_code = str ''BBC'', title = str ''Second'',
      summary = [], url = str ''B'', domain = str ''b'', is_new = True\<rparr>"


section \<open>Lemmas on strings\<close>

lemma length_rstrip_le: "length (rstrip s) \<le> length s"
  by (simp add: rstrip_def) (metis length_dropWhile_le length_rev)

lemma lstrip_fix: "s = [] \<or> \<not> is_space (hd s) \<Longrightarrow> lstrip s = s"
  by (cases s) (auto simp: lstrip_def)

lemma rstrip_fix: "s = [] \<or> \<not> is_space (last s) \<Longrightarrow> rstrip s = s"
  by (cases s rule: rev_cases) (auto simp: rstrip_def)

lemma rstrip_trailing_space:
  assumes "s \<noteq> []" and "is_space (last s)"
  shows "length (rstrip s) < length s"
proof (cases s rule: rev_cases)
  case Nil
  with assms(1) show ?thesis by simp
next
  case (snoc ys y)
  with assms(2) have "rstrip s = rstrip ys" by (simp add: rstrip_def)
  with snoc show ?thesis using length_rstrip_le [of ys] by simp
qed

lemma dropWhile_all_iff: "(\<forall>x\<in>set (dropWhile P s). P x) \<longleftrightarrow> (\<forall>x\<in>set s. P x)"
proof
  assume a: "\<forall>x\<in>set (dropWhile P s). P x"
  have "dropWhile P s = []"
  proof (rule ccontr)
    assume ne: "dropWhile P s \<noteq> []"
    then have "\<not> P (hd (dropWhile P s))" by (rule hd_dropWhile)
    moreover have "hd (dropWhile P s) \<in> set (dropWhile P s)" using ne by simp
    ultimately show False using a by blast
  qed
  then show "\<forall>x\<in>set s. P x" by (simp add: dropWhile_eq_Nil_conv)
next
  assume "\<forall>x\<in>set s. P x"
  then show "\<forall>x\<in>set (dropWhile P s). P x" by (auto dest: set_dropWhileD)
qed

lemma strip_empty_iff: "strip s = [] \<longleftrightarrow> (\<forall>c\<in>set s. is_space c)"
  by (simp add: strip_def lstrip_def rstrip_def dropWhile_all_iff)

lemma strip_ends:
  "strip s = [] \<or> (\<not> is_space (hd (strip s)) \<and> \<not> is_space (last (strip s)))"
  by (metis (no_types, lifting) append_Nil2 append_eq_rev_conv
    dropWhile_eq_self_iff hd_dropWhile hd_rev last_appendR lstrip_def
    rev_rev_ident rstrip_def strip_def takeWhile_dropWhile_id)

lemma strip_strip: "strip (strip s) = strip s"
proof -
  have "lstrip (strip s) = strip s" using strip_ends [of s] by (auto intro: lstrip_fix)
  moreover have "rstrip (strip s) = strip s" using strip_ends [of s] by (auto intro: rstrip_fix)
  ultimately show ?thesis by (simp add: strip_def [of "strip s"])
qed

lemma find_sub_single:
  "find_sub [c] s = (if c \<in> set s then Some (length (takeWhile (\<lambda>x. x \<noteq> c) s)) else None)"
  by (induction s) auto

lemma takeWhile_notin: "c \<notin> set s \<Longrightarrow> takeWhile (\<lambda>x. x \<noteq> c) s = s"
  by (induction s) auto

lemma domain_from_url_eq:
  "domain_from_url lower u =
     (if strip u = [] then [] else replace (str ''www.'') [] (lower (url_host (strip u))))"
  by (auto simp: domain_from_url_def Let_def contains_def split1_def url_host_def find_sub_single
      takeWhile_notin takeWhile_eq_take [symmetric] eval_nat_numeral split: option.splits)

lemma contains_Cons: "contains old (c # cs) \<longleftrightarrow> prefix old (c # cs) \<or> contains old cs"
  by (simp add: contains_def)

lemma replace_absent: "old \<noteq> [] \<Longrightarrow> \<not> contains old s \<Longrightarrow> replace old new s = s"
  by (induction s) (simp_all add: contains_Cons)

lemma replace_leading_www:
  "prefix (str ''www.'') h \<Longrightarrow> replace (str ''www.'') [] h = replace (str ''www.'') [] (drop 4 h)"
  by (cases h) (simp_all add: eval_nat_numeral)

lemma replace_www_leading_only:
  "\<not> contains (str ''www.'') (strip_leading_www h) \<Longrightarrow>
   replace (str ''www.'') [] h = strip_leading_www h"
  using replace_leading_www [of h] replace_absent [of "str ''www.''" "strip_leading_www h" "[]"]
  by (auto simp: strip_leading_www_def)

section \<open>Lemmas on the loops of the live pass\<close>

lemma for_parsed_eq:
  "for_parsed E seen c name ps (its, n) = (its @ map (make_item E seen c name) ps, n + length ps)"
  by (induction ps arbitrary: its n) simp_all

lemma last_error_Nil: "last_error E [] = []"
  by (simp add: last_error_def)

lemma last_error_Cons:
  "last_error E (u # us) =
     (if us = [] then (case fetch_parse E u of Inl e \<Rightarrow> format_exn e | Inr parsed \<Rightarrow> [])
      else last_error E us)"
  by (cases us rule: rev_cases) (simp_all add: last_error_def)

lemma for_urls_step:
  "for_urls E seen f (u # us) a =
     (case fetch_parse E u of
        Inl e \<Rightarrow>
          for_urls E seen f us (a\<lparr>a_trace := a_trace a @ [HttpGet u], last_err := format_exn e\<rparr>)
      | Inr parsed \<Rightarrow>
          a\<lparr>a_trace := a_trace a @ [HttpGet u],
            a_items := a_items a @ map (make_item E seen (f_cat f) (f_name f)) parsed,
            count := count a + length parsed, used_url := u, last_err := []\<rparr>)"
  by (simp add: fetch_parse_def for_parsed_eq Let_def split: sum.splits)

lemma for_urls_eq:
  "for_urls E seen f us a =
     (case first_ok E us of
        None \<Rightarrow> a\<lparr>a_trace := a_trace a @ map HttpGet (tried E us),
                  last_err := (if us = [] then last_err a else last_error E us)\<rparr>
      | Some (u, parsed) \<Rightarrow>
          a\<lparr>a_trace := a_trace a @ map HttpGet (tried E us),
            a_items := a_items a @ map (make_item E seen (f_cat f) (f_name f)) parsed,
            count := count a + length parsed, used_url := u, last_err := []\<rparr>)"
proof (induction us arbitrary: a)
  case Nil
  show ?case by simp
next
  case (Cons u us)
  show ?case
  proof (cases "fetch_parse E u")
    case (Inl e)
    show ?thesis
      unfolding for_urls_step Cons.IH
      by (simp add: Inl last_error_Cons split: option.splits)
  next
    case (Inr parsed)
    show ?thesis
      unfolding for_urls_step
      by (simp add: Inr)
  qed
qed

lemma status_of_eq:
  "status_of f (for_urls E seen f (f_urls f)
      \<lparr>a_items = its, a_trace = tr, used_url = [], last_err = [], count = 0\<rparr>) = outcome E f"
  by (simp add: for_urls_eq status_of_def outcome_def first_url_def last_error_Nil
      split: option.splits)

lemma for_feeds_eq:
  "for_feeds E seen fs (its, sts, tr) =
     (its @ merged E seen fs, sts @ map (outcome E) fs,
      tr @ concat (map (\<lambda>f. map HttpGet (tried E (f_urls f))) fs))"
proof (induction fs arbitrary: its sts tr)
  case Nil
  show ?case by (simp add: merged_def)
next
  case (Cons f fs)
  have items: "a_items (for_urls E seen f (f_urls f)
      \<lparr>a_items = its, a_trace = tr, used_url = [], last_err = [], count = 0\<rparr>)
      = its @ contribution E seen f"
    by (simp add: for_urls_eq contribution_def split: option.splits)
  have tr: "a_trace (for_urls E seen f (f_urls f)
      \<lparr>a_items = its, a_trace = tr, used_url = [], last_err = [], count = 0\<rparr>)
      = tr @ map HttpGet (tried E (f_urls f))"
    by (simp add: for_urls_eq split: option.splits)
  show ?case
    by (simp add: Let_def Cons.IH items tr status_of_eq merged_def del: for_urls.simps)
qed


lemma merged_make_item:
  "it \<in> set (merged E seen feeds) \<Longrightarrow> \<exists>c name p. it = make_item E seen c name p"
  by (auto simp: merged_def contribution_def split: option.splits)

section \<open>Lemmas on the sort\<close>


lemma set_sort_reverse: "set (sort_reverse k xs) = set xs"
  by (simp add: sort_reverse_def)





section \<open>Lemmas on \<open>fetch_all\<close>\<close>

lemma load_seen_eq: "load_seen w = (ledger w, w\<lparr>trace := trace w @ [ReadSeen]\<rparr>)"
  by (simp add: load_seen_def ledger_def)

lemma live_pass_fst:
  "fst (live_pass feeds E w) =
     (case cache_write_error E of
        Some e \<Rightarrow> Inl e
      | None \<Rightarrow> Inr (take MAX_ITEMS_TOTAL (sort_reverse epoch_key (merged E (ledger w) feeds)),
                    map (outcome E) feeds, str ''live''))"
  by (simp add: live_pass_def load_seen_eq for_feeds_eq save_cache_def Let_def
      split: option.splits)


lemma ledger_load_cache: "ledger (snd (load_cache E w)) = ledger w"
  by (simp add: load_cache_def ledger_def Let_def split: cache_content.splits)


lemma fetch_all_feeds_cases:
  "fetch_all_feeds feeds E w force =
     (if force then live_pass feeds E w
      else (case fst (load_cache E w) of
              Some d \<Rightarrow> (Inr (c_items d, c_statuses d, str ''cache''), snd (load_cache E w))
            | None \<Rightarrow> live_pass feeds E (snd (load_cache E w))))"
  by (simp add: fetch_all_feeds_def split: prod.splits option.splits)

lemma live_result:
  assumes "provenance_of (fetch_all_feeds feeds E w force) = str ''live''"
  shows "items_of (fetch_all_feeds feeds E w force)
           = take MAX_ITEMS_TOTAL (sort_reverse epoch_key (merged E (ledger w) feeds))"
    and "statuses_of (fetch_all_feeds feeds E w force) = map (outcome E) feeds"
proof -
  let ?r = "fetch_all_feeds feeds E w force"
  let ?live = "Inr (take MAX_ITEMS_TOTAL (sort_reverse epoch_key (merged E (ledger w) feeds)),
                    map (outcome E) feeds, str ''live'')"
  have "fst ?r = fst (live_pass feeds E w)
      \<or> fst ?r = fst (live_pass feeds E (snd (load_cache E w)))"
    using assms
    by (auto simp: fetch_all_feeds_cases provenance_of_def split: if_splits option.splits)
  then have "fst ?r = (case cache_write_error E of Some e \<Rightarrow> Inl e | None \<Rightarrow> ?live)"
    by (auto simp: live_pass_fst ledger_load_cache cong: option.case_cong)
  moreover have "cache_write_error E = None"
  proof (cases "cache_write_error E")
    case (Some e)
    with calculation have "fst ?r = Inl e" by simp
    with assms show ?thesis by (simp add: provenance_of_def)
  qed simp
  ultimately have "fst ?r = ?live" by simp
  then show "items_of ?r = take MAX_ITEMS_TOTAL (sort_reverse epoch_key (merged E (ledger w) feeds))"
    and "statuses_of ?r = map (outcome E) feeds"
    by (simp_all add: items_of_def statuses_of_def)
qed

lemma forced_live:
  "cache_write_error E = None \<Longrightarrow> provenance_of (fetch_all_feeds feeds E w True) = str ''live''"
  by (simp add: fetch_all_feeds_def provenance_of_def live_pass_fst)

section \<open>Lemmas on the latch and the worker\<close>

lemma compose_not_blank: "strip (compose_speak_text it b) \<noteq> []"
proof -
  have "46 \<in> set (compose_speak_text it b)"
    by (simp add: compose_speak_text_def Let_def)
  moreover have "\<not> is_space 46" by (simp add: is_space_def)
  ultimately show ?thesis unfolding strip_empty_iff by blast
qed

lemma speak_async_compose:
  "speak_async (compose_speak_text it b) tts
     = tts\<lparr>q := q tts @ [Speak (strip (compose_speak_text it b))]\<rparr>"
  by (simp add: speak_async_def Let_def compose_not_blank)

lemma latch_first:
  "auto_speak_newest_headline_if_changed (a # r) (latch_init, tts) =
     (\<lparr>first_load_done = True, last_newest_headline_id = Some (item_id a)\<rparr>, tts)"
  by (simp add: auto_speak_newest_headline_if_changed_def latch_init_def
      AUTO_SPEAK_NEWEST_HEADLINE_ON_CHANGE_def AUTO_SPEAK_ON_START_def Let_def)

lemma latch_same:
  "first_load_done l \<Longrightarrow> last_newest_headline_id l = Some (item_id a) \<Longrightarrow>
   auto_speak_newest_headline_if_changed (a # r) (l, tts) = (l, tts)"
  by (simp add: auto_speak_newest_headline_if_changed_def
      AUTO_SPEAK_NEWEST_HEADLINE_ON_CHANGE_def Let_def)

lemma latch_changed:
  "first_load_done l \<Longrightarrow> last_newest_headline_id l = Some i \<Longrightarrow> item_id a \<noteq> i \<Longrightarrow>
   item_id a \<noteq> [] \<Longrightarrow>
   auto_speak_newest_headline_if_changed (a # r) (l, tts) =
     (l\<lparr>last_newest_headline_id := Some (item_id a)\<rparr>,
      tts\<lparr>q := q tts @ [Speak (strip (compose_speak_text a False))]\<rparr>)"
  by (simp add: auto_speak_newest_headline_if_changed_def speak_async_compose
      AUTO_SPEAK_NEWEST_HEADLINE_ON_CHANGE_def AUTO_SPEAK_INCLUDE_SUMMARY_def Let_def)

lemma latch_empty_id:
  "item_id a = [] \<Longrightarrow> snd (auto_speak_newest_headline_if_changed (a # r) (l, tts)) = tts"
  by (simp add: auto_speak_newest_headline_if_changed_def
      AUTO_SPEAK_NEWEST_HEADLINE_ON_CHANGE_def AUTO_SPEAK_ON_START_def Let_def)














section \<open>Evaluation\<close>

lemmas string_defs =
  strip_def lstrip_def rstrip_def is_space_def contains_def split1_def ELLIPSIS_def
  truncate_str_def strip_html_def domain_from_url_def ascii_lower_def ascii_upper_def
  format_exn_def

lemmas fetch_defs =
  fetch_all_def fetch_all_feeds_def live_pass_def load_seen_def save_seen_def save_cache_def
  load_cache_def FEEDS_def SRC_CODE_def make_item_def status_of_def sort_reverse_def
  epoch_key_def MAX_ITEMS_TOTAL_def CACHE_TTL_SECONDS_def SUMMARY_CHARS_DETAIL_def
  parse_date_any_def fmt_hhmm_def items_of_def statuses_of_def provenance_of_def Let_def

lemmas env_defs =
  env_offline_def env_one_story_def env_same_story_def env_empty_channel_def env_archive_def
  env_blog_def env_cache_readonly_def world_fresh_def world_cached_def url_topstories_def
  url_canada_def rec_storm_def rec_undated_def rec_1965_def rec_blog_def


section \<open>The claims on the aggregation pass\<close>








text \<open>
  C3 fails on the code for the cache file. \<open>save_seen\<close> swallows the exception of a failed
  write, and a pass whose seen file cannot be written still returns its result;
  \<open>save_cache\<close> has no handler: with a cache file that cannot be written, the forced
  pass raises \<open>PermissionError\<close> and returns no result.
\<close>

theorem cache_write_failure_raises:
  "fst (fetch_all env_cache_readonly world_fresh True)
     = Inl (Exn (str ''PermissionError'') (str ''[Errno 13] Permission denied''))
   \<and> provenance_of (fetch_all env_seen_readonly world_fresh True) = str ''live''
   \<and> seen_file (snd (fetch_all env_seen_readonly world_fresh True)) = None"
proof (intro conjI)
  show "fst (fetch_all env_cache_readonly world_fresh True)
     = Inl (Exn (str ''PermissionError'') (str ''[Errno 13] Permission denied''))"
    by (simp add: fetch_all_def fetch_all_feeds_def live_pass_fst env_cache_readonly_def)
  show "provenance_of (fetch_all env_seen_readonly world_fresh True) = str ''live''"
    unfolding fetch_all_def by (rule forced_live) (simp add: env_defs env_seen_readonly_def)
  show "seen_file (snd (fetch_all env_seen_readonly world_fresh True)) = None"
    by (simp add: fetch_all_def fetch_all_feeds_def live_pass_def load_seen_eq for_feeds_eq
        save_seen_def save_cache_def Let_def env_defs env_seen_readonly_def)
qed






section \<open>The claims on the text utilities\<close>

text \<open>
  C6, as the code has it. Truncation works on the stripped text. For a cap of at least 1
  the result never exceeds the cap, and a text whose stripped form is within the cap is
  returned as that stripped form. A title of 300 code points (after stripping) under
  the cap 260 becomes its first 259 code points, without the blanks that end them,
  followed by one ellipsis marker: at most 260 code points, and exactly 260 when the
  259th code point is not a blank.
\<close>

theorem truncate_str_within_cap:
  "(1 \<le> n \<longrightarrow> int (length (truncate_str s n)) \<le> n)
   \<and> (int (length (strip s)) \<le> n \<longrightarrow> truncate_str s n = strip s)
   \<and> (length (strip s) = 300 \<longrightarrow>
        truncate_str s 260 = rstrip (take 259 (strip s)) @ ELLIPSIS
        \<and> length (truncate_str s 260) \<le> 260
        \<and> (length (truncate_str s 260) = 260 \<longleftrightarrow> \<not> is_space (strip s ! 258)))"
proof (intro conjI impI)
  assume n: "1 \<le> n"
  have "length (rstrip (take (nat (n - 1)) (strip s))) \<le> nat (n - 1)"
    using length_rstrip_le [of "take (nat (n - 1)) (strip s)"] by simp
  with n show "int (length (truncate_str s n)) \<le> n"
    by (auto simp: truncate_str_def Let_def ELLIPSIS_def max_def)
next
  assume "int (length (strip s)) \<le> n"
  then show "truncate_str s n = strip s"
    by (simp add: truncate_str_def Let_def)
next
  assume l: "length (strip s) = 300"
  let ?t = "take 259 (strip s)"
  show eq: "truncate_str s 260 = rstrip ?t @ ELLIPSIS"
    using l by (simp add: truncate_str_def Let_def)
  have ne: "?t \<noteq> []" and len: "length ?t = 259" using l by auto
  have "last ?t = ?t ! (length ?t - 1)" using ne by (rule last_conv_nth)
  then have last: "last ?t = strip s ! 258" by (simp only: len) simp
  show "length (truncate_str s 260) \<le> 260"
    using length_rstrip_le [of ?t] len by (simp add: eq ELLIPSIS_def)
  show "length (truncate_str s 260) = 260 \<longleftrightarrow> \<not> is_space (strip s ! 258)"
  proof (cases "is_space (strip s ! 258)")
    case True
    then have "length (rstrip ?t) < 259"
      using rstrip_trailing_space [OF ne] last len by simp
    with True show ?thesis by (simp add: eq ELLIPSIS_def)
  next
    case False
    then have "rstrip ?t = ?t"
      using rstrip_fix [of ?t] last by simp
    with False len show ?thesis by (simp add: eq ELLIPSIS_def)
  qed
qed

theorem truncate_str_within_cap_witness:
  "length (strip title_plain) = 300 \<and> \<not> is_space (strip title_plain ! 258) \<and>
   length (truncate_str title_plain 260) = 260 \<and>
   truncate_str title_plain 260 = replicate 259 97 @ ELLIPSIS \<and>
   int (length (strip (str ''Storm warning''))) \<le> 260 \<and>
   truncate_str (str ''Storm warning'') 260 = str ''Storm warning''"
proof -
  have s: "strip title_plain = title_plain"
    by (simp add: title_plain_def string_defs)
  have l: "length (strip title_plain) = 300"
    by (simp add: s) (simp add: title_plain_def)
  have c: "\<not> is_space (strip title_plain ! 258)"
    by (simp add: s) (simp add: title_plain_def is_space_def)
  note t = truncate_str_within_cap [of 260 title_plain, THEN conjunct2, THEN conjunct2,
      rule_format, OF l]
  have e: "truncate_str title_plain 260 = replicate 259 97 @ ELLIPSIS"
    using t [THEN conjunct1] by (simp add: s) (simp add: title_plain_def string_defs)
  have n: "length (truncate_str title_plain 260) = 260"
    using t [THEN conjunct2, THEN conjunct2] c by simp
  have w: "int (length (strip (str ''Storm warning''))) \<le> 260"
    by (simp add: string_defs)
  have u: "truncate_str (str ''Storm warning'') 260 = str ''Storm warning''"
    using truncate_str_within_cap [of 260 "str ''Storm warning''", THEN conjunct2,
      THEN conjunct1, rule_format, OF w]
    by (simp add: string_defs)
  show ?thesis using l c n e w u by (intro conjI)
qed

text \<open>
  C6 as stated fails: a title of 300 code points without blanks at its ends, whose 259th
  code point is a space, is truncated to 259 code points, not 260.
\<close>

theorem truncate_str_short_counterexample:
  "length title_space_at_cut = 300 \<and> strip title_space_at_cut = title_space_at_cut \<and>
   truncate_str title_space_at_cut 260 = replicate 258 97 @ ELLIPSIS \<and>
   length (truncate_str title_space_at_cut 260) = 259"
  by (simp add: title_space_at_cut_def string_defs)

text \<open>
  C9, as the code has it. For every item of a live pass, \<open>domain\<close> is empty when the
  item's URL is empty; otherwise it is the host text of the URL (what follows the
  first \<open>://\<close>, up to the first \<open>/\<close>), lower-cased, with every occurrence of \<open>www.\<close>
  removed. When the lower-cased host text has no \<open>www.\<close> after an optional leading one,
  this is the host with its leading \<open>www.\<close> stripped and nothing else altered.
\<close>

theorem live_item_domain:
  assumes "provenance_of (fetch_all_feeds feeds E w force) = str ''live''"
    and "it \<in> set (items_of (fetch_all_feeds feeds E w force))"
  shows "domain it =
           (if url it = [] then []
            else replace (str ''www.'') [] (str_lower E (url_host (url it))))
       \<and> (url it \<noteq> [] \<and>
            \<not> contains (str ''www.'') (strip_leading_www (str_lower E (url_host (url it)))) \<longrightarrow>
            domain it = strip_leading_www (str_lower E (url_host (url it))))"
proof -
  let ?m = "merged E (ledger w) feeds"
  have "set (take MAX_ITEMS_TOTAL (sort_reverse epoch_key ?m)) \<subseteq> set ?m"
    using set_take_subset [of MAX_ITEMS_TOTAL "sort_reverse epoch_key ?m"]
    by (simp add: set_sort_reverse)
  then have "it \<in> set ?m"
    using assms(2) by (auto simp: live_result(1) [OF assms(1)])
  then obtain c name p where it: "it = make_item E (ledger w) c name p"
    using merged_make_item by blast
  have u: "url it = strip (p_url p)"
    and d: "domain it = domain_from_url (str_lower E) (strip (p_url p))"
    by (simp_all add: it make_item_def Let_def)
  have eq: "domain it =
           (if url it = [] then []
            else replace (str ''www.'') [] (str_lower E (url_host (url it))))"
    by (simp add: d u domain_from_url_eq strip_strip)
  show ?thesis
  proof (intro conjI impI)
    show "domain it =
           (if url it = [] then []
            else replace (str ''www.'') [] (str_lower E (url_host (url it))))"
      by (rule eq)
  next
    assume a: "url it \<noteq> [] \<and>
        \<not> contains (str ''www.'') (strip_leading_www (str_lower E (url_host (url it))))"
    have "domain it = replace (str ''www.'') [] (str_lower E (url_host (url it)))"
      using eq a by (simp only: if_False)
    also have "\<dots> = strip_leading_www (str_lower E (url_host (url it)))"
      using a replace_www_leading_only by blast
    finally show "domain it = strip_leading_www (str_lower E (url_host (url it)))" .
  qed
qed

theorem live_item_domain_witness:
  "provenance_of (fetch_all env_one_story world_fresh True) = str ''live'' \<and>
   set (items_of (fetch_all env_one_story world_fresh True)) = {item_storm} \<and>
   url item_storm = str ''https://www.cbc.ca/news/storm'' \<and>
   \<not> contains (str ''www.'')
       (strip_leading_www (str_lower env_one_story (url_host (url item_storm)))) \<and>
   domain item_storm = str ''cbc.ca''"
proof -
  have p: "provenance_of (fetch_all_feeds FEEDS env_one_story world_fresh True) = str ''live''"
    by (rule forced_live) (simp add: env_defs)
  have s: "set (items_of (fetch_all_feeds FEEDS env_one_story world_fresh True)) = {item_storm}"
    by (simp add: fetch_defs env_defs string_defs item_storm_def)
  then have i: "item_storm \<in> set (items_of (fetch_all_feeds FEEDS env_one_story world_fresh True))"
    by simp
  have u: "url item_storm = str ''https://www.cbc.ca/news/storm''"
    by (simp add: item_storm_def make_item_def rec_storm_def Let_def string_defs)
  have h: "strip_leading_www (str_lower env_one_story (url_host (url item_storm))) = str ''cbc.ca''"
    by (simp add: u url_host_def strip_leading_www_def env_defs ascii_lower_def)
  have n: "\<not> contains (str ''www.'')
       (strip_leading_www (str_lower env_one_story (url_host (url item_storm))))"
    by (simp add: h contains_def)
  have ne: "url item_storm \<noteq> []"
    by (simp add: u)
  have d: "domain item_storm = str ''cbc.ca''"
    using live_item_domain [OF p i, THEN conjunct2, rule_format, OF conjI, OF ne n]
    by (simp only: h)
  show ?thesis
    unfolding fetch_all_def using p s u n d by (intro conjI)
qed

text \<open>
  C9 as stated fails: for the URL \<open>https://blog.www.example.com/post/1\<close> the domain of
  the item is \<open>blog.example.com\<close>, while the host, which has no leading \<open>www.\<close>, is
  \<open>blog.www.example.com\<close>.
\<close>

theorem live_item_domain_counterexample:
  "provenance_of (fetch_all env_blog world_fresh True) = str ''live'' \<and>
   map (\<lambda>x. (url x, domain x)) (items_of (fetch_all env_blog world_fresh True))
     = [(str ''https://blog.www.example.com/post/1'', str ''blog.example.com'')] \<and>
   strip_leading_www (ascii_lower (url_host (str ''https://blog.www.example.com/post/1'')))
     = str ''blog.www.example.com''"
  by (simp add: fetch_defs env_defs string_defs url_host_def strip_leading_www_def)

section \<open>The claims on narration\<close>

text \<open>
  C7. With speak-on-start disabled, as the configuration has it, five passes whose newest
  headlines have the ids \<open>A, A, B, B, A\<close> (two different non-empty ids) enqueue exactly
  two \<open>Speak\<close> commands: the headline of the third pass and the headline of the fifth.
  The first pass only records the id; a pass whose newest id is the latched id enqueues
  nothing and leaves the latch as it is; a newest headline with an empty id never
  enqueues anything.
\<close>

theorem latch_speaks_on_change_only:
  assumes "A \<noteq> B" and "A \<noteq> []" and "B \<noteq> []"
    and "item_id a1 = A" and "item_id a2 = A" and "item_id b3 = B" and "item_id b4 = B"
    and "item_id a5 = A"
  shows "passes [a1 # r1, a2 # r2, b3 # r3, b4 # r4, a5 # r5] (latch_init, tts) =
           (\<lparr>first_load_done = True, last_newest_headline_id = Some A\<rparr>,
            tts\<lparr>q := q tts @ [Speak (strip (compose_speak_text b3 False)),
                               Speak (strip (compose_speak_text a5 False))]\<rparr>)
       \<and> auto_speak_newest_headline_if_changed (a1 # r1) (latch_init, tts) =
           (\<lparr>first_load_done = True, last_newest_headline_id = Some A\<rparr>, tts)
       \<and> (\<forall>l::latch. first_load_done l \<and> last_newest_headline_id l = Some A \<longrightarrow>
             auto_speak_newest_headline_if_changed (a2 # r2) (l, tts) = (l, tts))
       \<and> (\<forall>(l::latch) (x::item) r. item_id x = [] \<longrightarrow>
             snd (auto_speak_newest_headline_if_changed (x # r) (l, tts)) = tts)"
proof (intro conjI allI impI)
  show "passes [a1 # r1, a2 # r2, b3 # r3, b4 # r4, a5 # r5] (latch_init, tts) =
           (\<lparr>first_load_done = True, last_newest_headline_id = Some A\<rparr>,
            tts\<lparr>q := q tts @ [Speak (strip (compose_speak_text b3 False)),
                               Speak (strip (compose_speak_text a5 False))]\<rparr>)"
    using assms by (simp add: passes_def latch_first latch_same latch_changed)
next
  show "auto_speak_newest_headline_if_changed (a1 # r1) (latch_init, tts) =
           (\<lparr>first_load_done = True, last_newest_headline_id = Some A\<rparr>, tts)"
    using assms(4) by (simp add: latch_first)
next
  fix l :: latch
  assume "first_load_done l \<and> last_newest_headline_id l = Some A"
  then show "auto_speak_newest_headline_if_changed (a2 # r2) (l, tts) = (l, tts)"
    using assms(5) by (simp add: latch_same)
next
  fix l :: latch and x :: item and r
  assume "item_id x = []"
  then show "snd (auto_speak_newest_headline_if_changed (x # r) (l, tts)) = tts"
    by (rule latch_empty_id)
qed

theorem latch_speaks_on_change_only_witness:
  "item_id headline_A \<noteq> item_id headline_B \<and> item_id headline_A \<noteq> [] \<and>
   item_id headline_B \<noteq> [] \<and>
   q (snd (passes [[headline_A, headline_B], [headline_A], [headline_B, headline_A],
                   [headline_B], [headline_A]] (latch_init, worker_init)))
     = [Speak (str ''WORLD. BBC. Second.''), Speak (str ''NEWS. CBC. First.'')]"
proof -
  have ab: "item_id headline_A \<noteq> item_id headline_B"
    and a: "item_id headline_A \<noteq> []" and b: "item_id headline_B \<noteq> []"
    by (simp_all add: headline_A_def headline_B_def)
  have ca: "strip (compose_speak_text headline_A False) = str ''NEWS. CBC. First.''"
    and cb: "strip (compose_speak_text headline_B False) = str ''WORLD. BBC. Second.''"
    by (simp_all add: compose_speak_text_def headline_A_def headline_B_def string_defs)
  note t = latch_speaks_on_change_only [OF ab a b refl refl refl refl refl,
      of "[headline_B]" "[]" "[headline_A]" "[]" "[]" worker_init, THEN conjunct1]
  have "q (snd (passes [[headline_A, headline_B], [headline_A], [headline_B, headline_A],
                   [headline_B], [headline_A]] (latch_init, worker_init)))
     = [Speak (str ''WORLD. BBC. Second.''), Speak (str ''NEWS. CBC. First.'')]"
    by (simp add: t) (simp add: ca cb worker_init_def)
  with ab a b show ?thesis by (intro conjI)
qed



end
